theory Spec2Isabelle
  imports Main
begin

section \<open>The ledger core of the cash-rebate tracker: data model\<close>

text \<open>
  The TypeScript interfaces \<^verbatim>\<open>Transaction\<close> and \<^verbatim>\<open>Block\<close> and the private state of the class
  \<^verbatim>\<open>Blockchain\<close> become records. The fields \<^verbatim>\<open>from\<close>, \<^verbatim>\<open>to\<close> and the transaction's
  \<^verbatim>\<open>timestamp\<close> are prefixed with \<open>tx_\<close> (the first two are reserved words of the proof
  language, the third is also a field of a block); the field \<^verbatim>\<open>chain\<close> is called
  \<open>chain_blocks\<close> because \<open>chain\<close> is a constant of the library.

  Numbers. A JavaScript \<^verbatim>\<open>number\<close> that holds an amount or a fee is modelled as an \<open>int\<close>;
  a number that holds an index, a timestamp (\<^verbatim>\<open>Date.now()\<close>) or a nonce is never negative and is
  modelled as a \<open>nat\<close>. The model is exact for the integers a \<^verbatim>\<open>number\<close> holds exactly (below
  \<open>2 ^ 53\<close>); fractional amounts, \<^verbatim>\<open>NaN\<close> and infinities are outside the model.
\<close>

record transaction =
  tx_from :: string
  tx_to :: string
  amount :: int
  fee :: int
  tx_timestamp :: nat
  signature :: string

record block =
  index :: nat
  previousHash :: string
  timestamp :: nat
  transactions :: "transaction list"
  nonce :: nat
  hash :: string

record blockchain =
  chain_blocks :: "block list"
  pendingTransactions :: "transaction list"
  difficulty :: nat

text \<open>
  Two functions of the JavaScript platform are used by the ledger and are not part of the
  repository: the hex digest \<^verbatim>\<open>createHash('sha256').update(s).digest('hex')\<close> and
  \<^verbatim>\<open>JSON.stringify\<close> on a list of transactions. They are parameters of the model.
  \<open>json_stringify\<close> is a function of the transactions' values: the objects are taken to list
  their properties in the order of the interface \<^verbatim>\<open>Transaction\<close>, as every object literal of
  the repository does.
\<close>

record platform =
  sha256_hex :: "string \<Rightarrow> string"
  json_stringify :: "transaction list \<Rightarrow> string"

datatype error = TypeError

section \<open>Hashing\<close>

text \<open>
  \<^verbatim>\<open>number + string\<close> converts the number to its decimal numeral; \<open>decimal\<close> is that
  conversion for the non-negative integers.
\<close>

definition digitChar :: "nat \<Rightarrow> char" where
  "digitChar k = ''0123456789'' ! k"

fun decimal :: "nat \<Rightarrow> string" where
  "decimal n =
     (if n < 10 then [digitChar n]
      else decimal (n div 10) @ [digitChar (n mod 10)])"

declare decimal.simps [simp del]

definition blockString :: "platform \<Rightarrow> block \<Rightarrow> string" where
  "blockString P b =
     decimal (index b) @ previousHash b @ decimal (timestamp b)
       @ json_stringify P (transactions b) @ decimal (nonce b)"

definition calculateHash :: "platform \<Rightarrow> block \<Rightarrow> string" where
  "calculateHash P b = sha256_hex P (blockString P b)"

text \<open>
  The difficulty test of \<^verbatim>\<open>mineBlockWithProofOfWork\<close> and \<^verbatim>\<open>validateChain\<close>:
  \<^verbatim>\<open>hash.substring(0, difficulty) === '0'.repeat(difficulty)\<close>.
\<close>

definition meetsTarget :: "nat \<Rightarrow> string \<Rightarrow> bool" where
  "meetsTarget d h \<longleftrightarrow> take d h = replicate d (CHR ''0'')"

section \<open>The ledger\<close>

definition createGenesisBlock :: "platform \<Rightarrow> nat \<Rightarrow> block" where
  "createGenesisBlock P now =
     (let genesisBlock =
            \<lparr>index = 0, previousHash = ''0'', timestamp = now, transactions = [],
             nonce = 0, hash = ''''\<rparr>
      in genesisBlock\<lparr>hash := calculateHash P genesisBlock\<rparr>)"

text \<open>The constructor; \<open>now\<close> is the value of \<^verbatim>\<open>Date.now()\<close> read by \<open>createGenesisBlock\<close>.\<close>

definition newBlockchain :: "platform \<Rightarrow> nat \<Rightarrow> blockchain" where
  "newBlockchain P now =
     \<lparr>chain_blocks = [createGenesisBlock P now], pendingTransactions = [], difficulty = 4\<rparr>"

text \<open>
  \<^verbatim>\<open>this.chain[this.chain.length - 1]\<close> is \<^verbatim>\<open>undefined\<close> on an empty array; \<open>None\<close> stands
  for it.
\<close>

definition getLatestBlock :: "blockchain \<Rightarrow> block option" where
  "getLatestBlock s = (if chain_blocks s = [] then None else Some (last (chain_blocks s)))"

definition isValidTransaction :: "transaction \<Rightarrow> bool" where
  "isValidTransaction t \<longleftrightarrow> tx_from t \<noteq> '''' \<and> tx_to t \<noteq> '''' \<and> amount t > 0 \<and> fee t \<ge> 0"

text \<open>\<open>addTransaction\<close> returns its boolean result and the ledger after the call.\<close>

definition addTransaction :: "transaction \<Rightarrow> blockchain \<Rightarrow> bool \<times> blockchain" where
  "addTransaction t s =
     (if \<not> isValidTransaction t then (False, s)
      else (True, s\<lparr>pendingTransactions := pendingTransactions s @ [t]\<rparr>))"

text \<open>
  The proof-of-work search is a \<^verbatim>\<open>while (true)\<close> loop that leaves only through its
  \<^verbatim>\<open>return\<close>; \<open>None\<close> is the search that never returns. The block is mutated in place
  (\<^verbatim>\<open>block.nonce++\<close>), so the function returns the block together with the hash.
\<close>

partial_function (option) mineBlockWithProofOfWork ::
  "platform \<Rightarrow> nat \<Rightarrow> block \<Rightarrow> (string \<times> block) option" where
  "mineBlockWithProofOfWork P d b =
     (if meetsTarget d (calculateHash P b) then Some (calculateHash P b, b)
      else mineBlockWithProofOfWork P d (b\<lparr>nonce := nonce b + 1\<rparr>))"

text \<open>
  \<open>mineBlock\<close> reads the clock twice (\<open>now_tx\<close> for the reward transaction, \<open>now_blk\<close> for the
  block). On an empty chain \<^verbatim>\<open>this.getLatestBlock().hash\<close> raises a \<^verbatim>\<open>TypeError\<close>. The
  result is \<open>None\<close> when the search does not return, \<open>Some (Inl e)\<close> when the call raises and
  \<open>Some (Inr (block, ledger))\<close> when it returns.
\<close>

definition rewardTransaction :: "nat \<Rightarrow> string \<Rightarrow> transaction" where
  "rewardTransaction now_tx minerAddress =
     \<lparr>tx_from = ''system'', tx_to = minerAddress, amount = 50, fee = 0,
      tx_timestamp = now_tx, signature = ''system_reward''\<rparr>"

definition candidateBlock :: "nat \<Rightarrow> nat \<Rightarrow> string \<Rightarrow> blockchain \<Rightarrow> block \<Rightarrow> block" where
  "candidateBlock now_tx now_blk minerAddress s tip =
     \<lparr>index = length (chain_blocks s), previousHash = hash tip, timestamp = now_blk,
      transactions = pendingTransactions s @ [rewardTransaction now_tx minerAddress],
      nonce = 0, hash = ''''\<rparr>"

definition mineBlock ::
  "platform \<Rightarrow> nat \<Rightarrow> nat \<Rightarrow> string \<Rightarrow> blockchain \<Rightarrow> (error + block \<times> blockchain) option" where
  "mineBlock P now_tx now_blk minerAddress s =
     (case getLatestBlock s of
        None \<Rightarrow> Some (Inl TypeError)
      | Some tip \<Rightarrow>
          (case mineBlockWithProofOfWork P (difficulty s)
                  (candidateBlock now_tx now_blk minerAddress s tip) of
             None \<Rightarrow> None
           | Some (h, mined) \<Rightarrow>
               (let newBlock = mined\<lparr>hash := h\<rparr>
                in Some (Inr (newBlock,
                     s\<lparr>chain_blocks := chain_blocks s @ [newBlock],
                       pendingTransactions := []\<rparr>)))))"

text \<open>The loop of \<open>validateChain\<close>, from the index \<open>i\<close> on.\<close>

function validateLoop :: "platform \<Rightarrow> blockchain \<Rightarrow> nat \<Rightarrow> bool" where
  "validateLoop P s i =
     (if i < length (chain_blocks s) then
        (let currentBlock = chain_blocks s ! i;
             previousBlock = chain_blocks s ! (i - 1)
         in if hash currentBlock \<noteq> calculateHash P currentBlock then False
            else if previousHash currentBlock \<noteq> hash previousBlock then False
            else if \<not> meetsTarget (difficulty s) (hash currentBlock) then False
            else validateLoop P s (i + 1))
      else True)"
  by pat_completeness auto
termination
  by (relation "measure (\<lambda>(P, s, i). length (chain_blocks s) - i)") auto

declare validateLoop.simps [simp del]

definition validateChain :: "platform \<Rightarrow> blockchain \<Rightarrow> bool" where
  "validateChain P s = validateLoop P s 1"

text \<open>\<open>getBalance\<close>: the inner loop over a block's transactions, the outer loop over the chain.\<close>

fun balanceTxs :: "string \<Rightarrow> transaction list \<Rightarrow> int \<Rightarrow> int" where
  "balanceTxs address [] balance = balance"
| "balanceTxs address (t # ts) balance =
     (let balance1 = (if tx_from t = address then balance - (amount t + fee t) else balance);
          balance2 = (if tx_to t = address then balance1 + amount t else balance1)
      in balanceTxs address ts balance2)"

fun balanceBlocks :: "string \<Rightarrow> block list \<Rightarrow> int \<Rightarrow> int" where
  "balanceBlocks address [] balance = balance"
| "balanceBlocks address (b # bs) balance =
     balanceBlocks address bs (balanceTxs address (transactions b) balance)"

definition getBalance :: "blockchain \<Rightarrow> string \<Rightarrow> int" where
  "getBalance s address = balanceBlocks address (chain_blocks s) 0"

section \<open>The network node\<close>

text \<open>
  The field \<^verbatim>\<open>data\<close> of a \<^verbatim>\<open>NetworkMessage\<close> has the type \<^verbatim>\<open>any\<close>. The handlers read
  the properties \<^verbatim>\<open>index\<close>, \<^verbatim>\<open>from\<close> and \<^verbatim>\<open>to\<close> of it and hand it to
  \<^verbatim>\<open>addTransaction\<close>, so the model distinguishes four kinds of value: \<^verbatim>\<open>null\<close> or
  \<^verbatim>\<open>undefined\<close> (reading a property of it raises a \<^verbatim>\<open>TypeError\<close>), a block, a
  transaction, and any other value that has none of the properties read (a hash string, a
  list of peers); reading a missing property yields \<^verbatim>\<open>undefined\<close>, which is \<open>None\<close>.
\<close>

datatype payload =
    NullData
  | BlockData block
  | TransactionData transaction
  | OtherData string


text \<open>The lines written with \<^verbatim>\<open>console.log\<close> and \<^verbatim>\<open>console.error\<close>, by their content.\<close>

datatype log_entry =
    ReceivedNewBlock "nat option"
  | BlockValidatedAndAdded "nat option"
  | ReceivedNewTransaction "string option" "string option"
  | BlockRequest payload string
  | PeerDiscoveryRequest
  | PingFrom string
  | UnknownMessageType string
  | BroadcastedBlock nat nat
  | MinerStarted
  | MinerStopped
  | MiningBlockWith nat
  | BlockMined string nat
  | BlockMinedSuccessfully nat
  | MinerBalance int
  | MiningError error

record node_state =
  peers :: "string list"
  isRunning :: bool
  nodeId :: string

record miner_state =
  isMining :: bool
  minerAddress :: string

text \<open>
  The node and the miner are constructed with a reference to the same \<^verbatim>\<open>Blockchain\<close> object,
  and the miner with a reference to the node (\<^verbatim>\<open>index.ts\<close>). The model keeps the three
  objects side by side in one record, with the console.
\<close>

record world =
  ledger :: blockchain
  node :: node_state
  miner :: miner_state
  console :: "log_entry list"

definition writeLog :: "log_entry \<Rightarrow> world \<Rightarrow> world" where
  "writeLog e w = w\<lparr>console := console w @ [e]\<rparr>"











text \<open>
  \<open>broadcastBlock\<close> builds the message and awaits \<open>broadcastMessage\<close>, which only sleeps once
  for each peer; when it has finished, the broadcast is logged.
\<close>

definition broadcastBlock :: "block \<Rightarrow> world \<Rightarrow> world" where
  "broadcastBlock b w = writeLog (BroadcastedBlock (index b) (length (peers (node w)))) w"

section \<open>The miner\<close>

definition isMiningActive :: "world \<Rightarrow> bool" where
  "isMiningActive w = isMining (miner w)"

definition getMinerAddress :: "world \<Rightarrow> string" where
  "getMinerAddress w = minerAddress (miner w)"

definition stop :: "world \<Rightarrow> world" where
  "stop w = writeLog MinerStopped (w\<lparr>miner := (miner w)\<lparr>isMining := False\<rparr>\<rparr>)"

text \<open>
  \<open>miningLoop\<close> is an \<^verbatim>\<open>async\<close> method: it runs until it reaches an \<^verbatim>\<open>await\<close>, is
  suspended there while other code (a call of \<open>stop\<close>, of \<open>addTransaction\<close>, a message
  handler) may run, and is resumed later. A \<open>loop_state\<close> says where the loop stands: at the
  test of \<^verbatim>\<open>while (this.isMining)\<close>, awaiting \<^verbatim>\<open>this.node.broadcastBlock(newBlock)\<close>,
  awaiting \<^verbatim>\<open>this.sleep(ms)\<close>, or left.
\<close>

datatype loop_state =
    LoopHead
  | AwaitBroadcast block
  | AwaitSleep nat
  | LoopExited

text \<open>
  One pass from the loop test to the next \<^verbatim>\<open>await\<close>. The call of \<open>mineBlock\<close> is synchronous:
  if its search does not return, neither does the pass (\<open>None\<close>). An exception is caught and
  logged, and the loop sleeps for 10 seconds instead of 5. The line that
  \<open>mineBlockWithProofOfWork\<close> writes to the console when it returns is written here.
\<close>

definition miningLoopHead :: "platform \<Rightarrow> nat \<Rightarrow> nat \<Rightarrow> world \<Rightarrow> (loop_state \<times> world) option" where
  "miningLoopHead P now_tx now_blk w =
     (if \<not> isMining (miner w) then Some (LoopExited, w)
      else
        (let pendingTxs = pendingTransactions (ledger w)
         in if length pendingTxs > 0 then
              (let w1 = writeLog (MiningBlockWith (length pendingTxs)) w
               in case mineBlock P now_tx now_blk (minerAddress (miner w1)) (ledger w1) of
                    None \<Rightarrow> None
                  | Some (Inl e) \<Rightarrow> Some (AwaitSleep 10000, writeLog (MiningError e) w1)
                  | Some (Inr (newBlock, s')) \<Rightarrow>
                      (let w2 = writeLog (BlockMined (hash newBlock) (nonce newBlock))
                                  (w1\<lparr>ledger := s'\<rparr>);
                           w3 = writeLog (BlockMinedSuccessfully (index newBlock)) w2;
                           w4 = writeLog (MinerBalance
                                  (getBalance (ledger w3) (minerAddress (miner w3)))) w3
                       in Some (AwaitBroadcast newBlock, w4)))
            else Some (AwaitSleep 5000, w)))"

text \<open>
  One step of the loop: from the loop test to the next \<^verbatim>\<open>await\<close>, or the resumption after
  an \<^verbatim>\<open>await\<close>: after the broadcast the loop sleeps for 5 seconds, after a sleep it is back
  at the loop test.
\<close>

fun miningLoopStep ::
  "platform \<Rightarrow> nat \<Rightarrow> nat \<Rightarrow> loop_state \<Rightarrow> world \<Rightarrow> (loop_state \<times> world) option" where
  "miningLoopStep P now_tx now_blk LoopHead w = miningLoopHead P now_tx now_blk w"
| "miningLoopStep P now_tx now_blk (AwaitBroadcast newBlock) w =
     Some (AwaitSleep 5000, broadcastBlock newBlock w)"
| "miningLoopStep P now_tx now_blk (AwaitSleep ms) w = Some (LoopHead, w)"
| "miningLoopStep P now_tx now_blk LoopExited w = Some (LoopExited, w)"

text \<open>
  Several steps of one loop with nothing run in between; each step reads the clock, and the
  list gives the two readings that a call of \<open>mineBlock\<close> in that step would make.
\<close>

fun miningLoopRun ::
  "platform \<Rightarrow> (nat \<times> nat) list \<Rightarrow> loop_state \<Rightarrow> world \<Rightarrow> (loop_state \<times> world) option" where
  "miningLoopRun P [] l w = Some (l, w)"
| "miningLoopRun P ((now_tx, now_blk) # clock) l w =
     (case miningLoopStep P now_tx now_blk l w of
        None \<Rightarrow> None
      | Some (l', w') \<Rightarrow> miningLoopRun P clock l' w')"

text \<open>
  \<open>start\<close> sets the flag, logs, and calls \<open>miningLoop\<close> without awaiting it: the call returns
  when the loop reaches its first \<^verbatim>\<open>await\<close>. The result is the state of the loop that was
  started, and the world.
\<close>

definition start :: "platform \<Rightarrow> nat \<Rightarrow> nat \<Rightarrow> world \<Rightarrow> (loop_state \<times> world) option" where
  "start P now_tx now_blk w =
     miningLoopHead P now_tx now_blk
       (writeLog MinerStarted (w\<lparr>miner := (miner w)\<lparr>isMining := True\<rparr>\<rparr>))"

section \<open>Notions used to state the properties\<close>

text \<open>
  What a search that returns \<open>r = (hash, block)\<close> from the candidate \<open>b\<close> has found: the block
  is \<open>b\<close> with its nonce advanced by some \<open>n\<close>, the hash is the content hash of that block
  and meets the target, and no smaller advance does.
\<close>

definition searchResult :: "platform \<Rightarrow> nat \<Rightarrow> block \<Rightarrow> string \<times> block \<Rightarrow> bool" where
  "searchResult P d b r \<longleftrightarrow>
     (\<exists>n. snd r = b\<lparr>nonce := nonce b + n\<rparr> \<and> fst r = calculateHash P (snd r)
        \<and> meetsTarget d (fst r)
        \<and> (\<forall>i<n. \<not> meetsTarget d (calculateHash P (b\<lparr>nonce := nonce b + i\<rparr>))))"

text \<open>The three checks of \<open>validateChain\<close> on the block at index \<open>i\<close>, as the specification lists them.\<close>

definition blockChecks :: "platform \<Rightarrow> blockchain \<Rightarrow> nat \<Rightarrow> bool" where
  "blockChecks P s i \<longleftrightarrow>
     hash (chain_blocks s ! i) = calculateHash P (chain_blocks s ! i)
   \<and> previousHash (chain_blocks s ! i) = hash (chain_blocks s ! (i - 1))
   \<and> meetsTarget (difficulty s) (hash (chain_blocks s ! i))"

text \<open>
  A freshly mined ledger: the constructor's ledger, followed by any calls of \<open>addTransaction\<close>
  and any returning calls of \<open>mineBlock\<close>.
\<close>

inductive freshlyMined :: "platform \<Rightarrow> blockchain \<Rightarrow> bool" for P :: platform where
  constructed: "freshlyMined P (newBlockchain P now)"
| added: "freshlyMined P s \<Longrightarrow> freshlyMined P (snd (addTransaction t s))"
| mined: "freshlyMined P s \<Longrightarrow> mineBlock P now_tx now_blk addr s = Some (Inr (b, s'))
            \<Longrightarrow> freshlyMined P s'"



section \<open>Concrete inputs\<close>

text \<open>
  A platform on which the model can be evaluated. Its digest is not SHA-256: it meets the
  difficulty target exactly on the strings that end in the digit 2, so the search from nonce 0
  stops at nonce 2.
\<close>

definition testDigest :: "string \<Rightarrow> string" where
  "testDigest str = (if str \<noteq> [] \<and> last str = CHR ''2'' then ''0000beef'' else ''beef'' @ str)"

definition testPlatform :: platform where
  "testPlatform =
     \<lparr>sha256_hex = testDigest, json_stringify = (\<lambda>ts. replicate (length ts) (CHR ''t''))\<rparr>"

definition aliceToBob :: transaction where
  "aliceToBob =
     \<lparr>tx_from = ''alice'', tx_to = ''bob'', amount = 50, fee = 1, tx_timestamp = 7,
      signature = ''alice_signature_1''\<rparr>"

definition fromNobody :: transaction where
  "fromNobody =
     \<lparr>tx_from = '''', tx_to = ''bob'', amount = 50, fee = 1, tx_timestamp = 7,
      signature = ''signature''\<rparr>"

text \<open>
  The ledger of the specification's scenario before mining: a new ledger, constructed at time
  17, with the transaction from alice to bob admitted; and the candidate block that
  \<open>mineBlock\<close> builds on it for the miner \<open>miner1\<close> with the clock at 20 and 21.
\<close>

definition testLedger :: blockchain where
  "testLedger = snd (addTransaction aliceToBob (newBlockchain testPlatform 17))"

definition testCandidate :: block where
  "testCandidate = candidateBlock 20 21 ''miner1'' testLedger (createGenesisBlock testPlatform 17)"

text \<open>
  The block that \<open>mineBlock\<close> returns on \<open>testLedger\<close> and the ledger after the call; a world
  with that ledger before mining, a stopped miner and three peers; and messages of three types.
\<close>

definition testBlock :: block where
  "testBlock = testCandidate\<lparr>nonce := 2, hash := ''0000beef''\<rparr>"

definition testLedgerMined :: blockchain where
  "testLedgerMined =
     testLedger\<lparr>chain_blocks := chain_blocks testLedger @ [testBlock], pendingTransactions := []\<rparr>"

definition testWorld :: world where
  "testWorld =
     \<lparr>ledger = testLedger,
      node = \<lparr>peers = [''peer1.blockchain.network'', ''peer2.blockchain.network'',
                       ''peer3.blockchain.network''],
              isRunning = True, nodeId = ''node_k2j5x9''\<rparr>,
      miner = \<lparr>isMining = False, minerAddress = ''miner1''\<rparr>,
      console = []\<rparr>"




section \<open>Properties of the ledger\<close>

subsection \<open>Hashing\<close>

lemma calculateHash_hash_update [simp]: "calculateHash P (b\<lparr>hash := h\<rparr>) = calculateHash P b"
  by (simp add: calculateHash_def blockString_def)

lemma calculateHash_fields:
  assumes "index b1 = index b2" "previousHash b1 = previousHash b2" "timestamp b1 = timestamp b2"
    "transactions b1 = transactions b2" "nonce b1 = nonce b2"
  shows "calculateHash P b1 = calculateHash P b2"
  using assms by (simp add: calculateHash_def blockString_def)

subsection \<open>The proof-of-work search\<close>

lemma pow_search_from:
  assumes "meetsTarget d (calculateHash P (b\<lparr>nonce := nonce b + j\<rparr>))"
    and "\<forall>i<j. \<not> meetsTarget d (calculateHash P (b\<lparr>nonce := nonce b + i\<rparr>))"
  shows "mineBlockWithProofOfWork P d b =
           Some (calculateHash P (b\<lparr>nonce := nonce b + j\<rparr>), b\<lparr>nonce := nonce b + j\<rparr>)"
  using assms
proof (induction j arbitrary: b)
  case 0
  then show ?case by (subst mineBlockWithProofOfWork.simps) simp
next
  case (Suc j)
  let ?b = "b\<lparr>nonce := nonce b + 1\<rparr>"
  from Suc.prems(2) have "\<not> meetsTarget d (calculateHash P (b\<lparr>nonce := nonce b + 0\<rparr>))"
    by blast
  then have nb: "\<not> meetsTarget d (calculateHash P b)" by simp
  have a: "meetsTarget d (calculateHash P (?b\<lparr>nonce := nonce ?b + j\<rparr>))"
    using Suc.prems(1) by simp
  have b: "\<forall>i<j. \<not> meetsTarget d (calculateHash P (?b\<lparr>nonce := nonce ?b + i\<rparr>))"
  proof (intro allI impI)
    fix i assume "i < j"
    then have "Suc i < Suc j" by simp
    with Suc.prems(2) have "\<not> meetsTarget d (calculateHash P (b\<lparr>nonce := nonce b + Suc i\<rparr>))"
      by blast
    then show "\<not> meetsTarget d (calculateHash P (?b\<lparr>nonce := nonce ?b + i\<rparr>))" by simp
  qed
  from Suc.IH [OF a b] nb show ?case
    by (subst mineBlockWithProofOfWork.simps) simp
qed

lemma searchResult_now:
  "meetsTarget d (calculateHash P b) \<Longrightarrow> searchResult P d b (calculateHash P b, b)"
  unfolding searchResult_def by (rule exI [of _ 0]) simp

lemma searchResult_later:
  assumes "\<not> meetsTarget d (calculateHash P b)"
    and "searchResult P d (b\<lparr>nonce := nonce b + 1\<rparr>) r"
  shows "searchResult P d b r"
proof -
  from assms(2) obtain n where n:
    "snd r = b\<lparr>nonce := nonce b + 1 + n\<rparr>" "fst r = calculateHash P (snd r)" "meetsTarget d (fst r)"
    "\<forall>i<n. \<not> meetsTarget d (calculateHash P (b\<lparr>nonce := nonce b + 1 + i\<rparr>))"
    unfolding searchResult_def by auto
  have "\<not> meetsTarget d (calculateHash P (b\<lparr>nonce := nonce b + i\<rparr>))" if "i < Suc n" for i
  proof (cases i)
    case 0
    with assms(1) show ?thesis by simp
  next
    case (Suc k)
    with that n(4) show ?thesis by simp
  qed
  with n(1-3) show ?thesis
    unfolding searchResult_def by (intro exI [of _ "Suc n"]) simp
qed

lemma pow_search_sound:
  assumes "mineBlockWithProofOfWork P d b = Some r"
  shows "searchResult P d b r"
proof -
  have "(\<lambda>x y. searchResult (fst (fst x)) (snd (fst x)) (snd x) y) ((P, d), b) r"
  proof (rule mineBlockWithProofOfWork.raw_induct [OF _ assms])
    fix f P d b r
    assume IH: "\<And>P d b y. f P d b = Some y \<Longrightarrow>
                  searchResult (fst (fst ((P, d), b))) (snd (fst ((P, d), b))) (snd ((P, d), b)) y"
      and eq: "(if meetsTarget d (calculateHash P b) then Some (calculateHash P b, b)
                else f P d (b\<lparr>nonce := nonce b + 1\<rparr>)) = Some r"
    show "searchResult (fst (fst ((P, d), b))) (snd (fst ((P, d), b))) (snd ((P, d), b)) r"
    proof (cases "meetsTarget d (calculateHash P b)")
      case True
      with eq have "r = (calculateHash P b, b)" by simp
      with True show ?thesis by (simp add: searchResult_now)
    next
      case False
      with eq have "f P d (b\<lparr>nonce := nonce b + 1\<rparr>) = Some r" by simp
      from IH [OF this] have "searchResult P d (b\<lparr>nonce := nonce b + 1\<rparr>) r" by simp
      with False show ?thesis by (simp add: searchResult_later)
    qed
  qed
  then show ?thesis by simp
qed

text \<open>The search returns exactly when some nonce from the candidate's on meets the target.\<close>

lemma pow_search_least:
  assumes "meetsTarget d (calculateHash P (b\<lparr>nonce := nonce b + n\<rparr>))"
  shows "\<exists>j\<le>n. mineBlockWithProofOfWork P d b =
           Some (calculateHash P (b\<lparr>nonce := nonce b + j\<rparr>), b\<lparr>nonce := nonce b + j\<rparr>)
         \<and> meetsTarget d (calculateHash P (b\<lparr>nonce := nonce b + j\<rparr>))
         \<and> (\<forall>i<j. \<not> meetsTarget d (calculateHash P (b\<lparr>nonce := nonce b + i\<rparr>)))"
proof -
  define Q where "Q k \<longleftrightarrow> meetsTarget d (calculateHash P (b\<lparr>nonce := nonce b + k\<rparr>))" for k
  define j where "j = (LEAST k. Q k)"
  from assms have "Q n" by (simp add: Q_def)
  then have j: "Q j" "j \<le> n" "\<forall>i<j. \<not> Q i"
    unfolding j_def by (auto intro: LeastI Least_le dest: not_less_Least)
  then have "mineBlockWithProofOfWork P d b =
           Some (calculateHash P (b\<lparr>nonce := nonce b + j\<rparr>), b\<lparr>nonce := nonce b + j\<rparr>)"
    unfolding Q_def by (intro pow_search_from) auto
  with j show ?thesis unfolding Q_def by blast
qed

subsection \<open>The validation loop\<close>

lemma validateLoop_iff:
  "validateLoop P s i \<longleftrightarrow> (\<forall>j. i \<le> j \<and> j < length (chain_blocks s) \<longrightarrow> blockChecks P s j)"
proof (induction P s i rule: validateLoop.induct)
  case (1 P s i)
  show ?case
  proof (cases "i < length (chain_blocks s)")
    case False
    then have "validateLoop P s i" by (subst validateLoop.simps) simp
    moreover from False have "\<forall>j. i \<le> j \<and> j < length (chain_blocks s) \<longrightarrow> blockChecks P s j"
      by auto
    ultimately show ?thesis by blast
  next
    case True
    show ?thesis
    proof (cases "blockChecks P s i")
      case False
      with True have "\<not> validateLoop P s i"
        by (subst validateLoop.simps) (auto simp: blockChecks_def Let_def)
      moreover from True False have "\<not> (\<forall>j. i \<le> j \<and> j < length (chain_blocks s) \<longrightarrow> blockChecks P s j)"
        by blast
      ultimately show ?thesis by blast
    next
      case c: True
      then have c1: "hash (chain_blocks s ! i) = calculateHash P (chain_blocks s ! i)"
        and c2: "previousHash (chain_blocks s ! i) = hash (chain_blocks s ! (i - 1))"
        and c3: "meetsTarget (difficulty s) (hash (chain_blocks s ! i))"
        unfolding blockChecks_def by blast+
      have "validateLoop P s i = validateLoop P s (i + 1)"
        by (subst validateLoop.simps) (use True c1 c2 c3 in \<open>simp add: Let_def\<close>)
      also have "\<dots> \<longleftrightarrow> (\<forall>j. i + 1 \<le> j \<and> j < length (chain_blocks s) \<longrightarrow> blockChecks P s j)"
        using True c1 c2 c3 by (intro "1.IH") auto
      also have "\<dots> \<longleftrightarrow> (\<forall>j. i \<le> j \<and> j < length (chain_blocks s) \<longrightarrow> blockChecks P s j)"
      proof
        assume h: "\<forall>j. i + 1 \<le> j \<and> j < length (chain_blocks s) \<longrightarrow> blockChecks P s j"
        show "\<forall>j. i \<le> j \<and> j < length (chain_blocks s) \<longrightarrow> blockChecks P s j"
        proof (intro allI impI)
          fix j assume "i \<le> j \<and> j < length (chain_blocks s)"
          then consider "j = i" | "i + 1 \<le> j \<and> j < length (chain_blocks s)" by force
          then show "blockChecks P s j" using c h by cases auto
        qed
      next
        assume "\<forall>j. i \<le> j \<and> j < length (chain_blocks s) \<longrightarrow> blockChecks P s j"
        then show "\<forall>j. i + 1 \<le> j \<and> j < length (chain_blocks s) \<longrightarrow> blockChecks P s j" by simp
      qed
      finally show ?thesis .
    qed
  qed
qed

lemma validateChain_iff:
  "validateChain P s \<longleftrightarrow> (\<forall>i. 1 \<le> i \<and> i < length (chain_blocks s) \<longrightarrow> blockChecks P s i)"
  unfolding validateChain_def by (rule validateLoop_iff)

subsection \<open>The balance\<close>




lemma meetsTarget_iff:
  "meetsTarget d h \<longleftrightarrow> d \<le> length h \<and> (\<forall>i<d. h ! i = CHR ''0'')"
proof
  assume m: "meetsTarget d h"
  then have eq: "take d h = replicate d (CHR ''0'')" by (simp add: meetsTarget_def)
  then have "length (take d h) = d" by simp
  then have le: "d \<le> length h" by simp
  have "h ! i = CHR ''0''" if "i < d" for i
  proof -
    from that have "h ! i = take d h ! i" by simp
    also from that have "\<dots> = CHR ''0''" unfolding eq by simp
    finally show ?thesis .
  qed
  with le show "d \<le> length h \<and> (\<forall>i<d. h ! i = CHR ''0'')" by blast
next
  assume a: "d \<le> length h \<and> (\<forall>i<d. h ! i = CHR ''0'')"
  then have "take d h = replicate d (CHR ''0'')"
    by (intro nth_equalityI) auto
  then show "meetsTarget d h" by (simp add: meetsTarget_def)
qed

subsection \<open>mineBlock\<close>

lemma mineBlock_unfold:
  assumes "chain_blocks s \<noteq> []"
    and "mineBlockWithProofOfWork P (difficulty s)
           (candidateBlock now_tx now_blk addr s (last (chain_blocks s))) = Some (h, m)"
  shows "mineBlock P now_tx now_blk addr s =
           Some (Inr (m\<lparr>hash := h\<rparr>,
             s\<lparr>chain_blocks := chain_blocks s @ [m\<lparr>hash := h\<rparr>], pendingTransactions := []\<rparr>))"
  using assms by (simp add: mineBlock_def getLatestBlock_def Let_def)

lemma mineBlock_InrD:
  assumes "mineBlock P now_tx now_blk addr s = Some (Inr (b, s'))"
  shows "chain_blocks s \<noteq> []"
    and "\<exists>r. mineBlockWithProofOfWork P (difficulty s)
           (candidateBlock now_tx now_blk addr s (last (chain_blocks s))) = Some r
         \<and> b = (snd r)\<lparr>hash := fst r\<rparr>"
    and "s' = s\<lparr>chain_blocks := chain_blocks s @ [b], pendingTransactions := []\<rparr>"
  using assms
  by (auto simp: mineBlock_def getLatestBlock_def Let_def split: if_splits option.splits prod.splits)

lemma mineBlock_block:
  assumes "mineBlock P now_tx now_blk addr s = Some (Inr (b, s'))"
  shows "\<exists>n. b = (candidateBlock now_tx now_blk addr s (last (chain_blocks s)))
                  \<lparr>nonce := n, hash := calculateHash P
                      ((candidateBlock now_tx now_blk addr s (last (chain_blocks s)))\<lparr>nonce := n\<rparr>)\<rparr>
            \<and> meetsTarget (difficulty s) (hash b)"
proof -
  let ?c = "candidateBlock now_tx now_blk addr s (last (chain_blocks s))"
  from mineBlock_InrD(2) [OF assms] obtain r where
    r: "mineBlockWithProofOfWork P (difficulty s) ?c = Some r" and b: "b = (snd r)\<lparr>hash := fst r\<rparr>"
    by blast
  from pow_search_sound [OF r] obtain n where
    n: "snd r = ?c\<lparr>nonce := nonce ?c + n\<rparr>" "fst r = calculateHash P (snd r)"
       "meetsTarget (difficulty s) (fst r)"
    unfolding searchResult_def by blast
  have "nonce ?c = 0" by (simp add: candidateBlock_def)
  with n b show ?thesis by (intro exI [of _ n]) simp
qed

lemma mineBlock_hash:
  assumes "mineBlock P now_tx now_blk addr s = Some (Inr (b, s'))"
  shows "hash b = calculateHash P b" and "meetsTarget (difficulty s) (hash b)"
proof -
  from mineBlock_block [OF assms] obtain n where
    b: "b = (candidateBlock now_tx now_blk addr s (last (chain_blocks s)))
                  \<lparr>nonce := n, hash := calculateHash P
                      ((candidateBlock now_tx now_blk addr s (last (chain_blocks s)))\<lparr>nonce := n\<rparr>)\<rparr>"
    and m: "meetsTarget (difficulty s) (hash b)" by blast
  from m show "meetsTarget (difficulty s) (hash b)" .
  have "calculateHash P b =
          calculateHash P ((candidateBlock now_tx now_blk addr s (last (chain_blocks s)))\<lparr>nonce := n\<rparr>)"
    by (subst b) (rule calculateHash_fields; simp)
  moreover have "hash b =
          calculateHash P ((candidateBlock now_tx now_blk addr s (last (chain_blocks s)))\<lparr>nonce := n\<rparr>)"
    by (subst b) simp
  ultimately show "hash b = calculateHash P b" by simp
qed

lemma mineBlock_returns:
  assumes "chain_blocks s \<noteq> []"
    and "meetsTarget (difficulty s) (calculateHash P
           ((candidateBlock now_tx now_blk addr s (last (chain_blocks s)))\<lparr>nonce := n\<rparr>))"
  shows "\<exists>b s'. mineBlock P now_tx now_blk addr s = Some (Inr (b, s'))"
proof -
  let ?c = "candidateBlock now_tx now_blk addr s (last (chain_blocks s))"
  have z: "nonce ?c = 0" by (simp add: candidateBlock_def)
  with assms(2) have "meetsTarget (difficulty s) (calculateHash P (?c\<lparr>nonce := nonce ?c + n\<rparr>))"
    by simp
  from pow_search_least [OF this] obtain r where
    "mineBlockWithProofOfWork P (difficulty s) ?c = Some r" by blast
  then have "mineBlockWithProofOfWork P (difficulty s) ?c = Some (fst r, snd r)" by simp
  from mineBlock_unfold [OF assms(1) this] show ?thesis by blast
qed

subsection \<open>Freshly mined ledgers validate\<close>



lemma validateChain_pending:
  "validateChain P (s\<lparr>pendingTransactions := p\<rparr>) = validateChain P s"
  by (simp add: validateChain_iff blockChecks_def)


lemma validateChain_newBlockchain: "validateChain P (newBlockchain P now)"
  by (simp add: validateChain_iff newBlockchain_def)


lemma freshlyMined_nonempty: "freshlyMined P s \<Longrightarrow> chain_blocks s \<noteq> []"
proof (induction rule: freshlyMined.induct)
  case (constructed now)
  show ?case by (simp add: newBlockchain_def)
next
  case (added s t)
  then show ?case by (simp add: addTransaction_def)
next
  case (mined s now_tx now_blk addr b s')
  from mineBlock_InrD(3) [OF mined.hyps(2)] show ?case by simp
qed

subsection \<open>Tampering\<close>




subsection \<open>Evaluation on the concrete inputs\<close>

lemma meetsTarget_4: "meetsTarget 4 h \<longleftrightarrow> take 4 h = ''0000''"
  by (simp add: meetsTarget_def eval_nat_numeral)

lemmas test_defs =
  testLedger_def testCandidate_def testPlatform_def testDigest_def aliceToBob_def
  newBlockchain_def createGenesisBlock_def addTransaction_def isValidTransaction_def
  candidateBlock_def rewardTransaction_def calculateHash_def blockString_def
  decimal.simps digitChar_def meetsTarget_4 Let_def

lemma testLedger_chain: "chain_blocks testLedger = [createGenesisBlock testPlatform 17]"
  by (simp add: testLedger_def addTransaction_def newBlockchain_def)

lemma testLedger_last: "last (chain_blocks testLedger) = createGenesisBlock testPlatform 17"
  by (simp add: testLedger_chain)

lemma testLedger_difficulty: "difficulty testLedger = 4"
  by (simp add: testLedger_def addTransaction_def newBlockchain_def)

lemma testLedger_pending: "pendingTransactions testLedger = [aliceToBob]"
  by (simp add: testLedger_def addTransaction_def newBlockchain_def isValidTransaction_def aliceToBob_def)

lemma testCandidate_nonce: "nonce testCandidate = 0"
  by (simp add: testCandidate_def candidateBlock_def)

lemma testCandidate_2: "meetsTarget 4 (calculateHash testPlatform (testCandidate\<lparr>nonce := 2\<rparr>))"
  by (simp add: test_defs)

lemma testCandidate_0: "\<not> meetsTarget 4 (calculateHash testPlatform (testCandidate\<lparr>nonce := 0\<rparr>))"
  by (simp add: test_defs)

lemma testCandidate_1: "\<not> meetsTarget 4 (calculateHash testPlatform (testCandidate\<lparr>nonce := 1\<rparr>))"
  by (simp add: test_defs)

section \<open>The claims about the ledger\<close>

text \<open>
  C3. \<open>addTransaction\<close> returns true exactly when the sender and the recipient are non-empty,
  the amount is positive and the fee is not negative. When it returns true the transaction
  is appended at the end of the pending pool, whose length grows by one; when it returns
  false the ledger is unchanged. The result depends neither on the signature nor on the
  ledger (no balance check, no signature verification).
\<close>

theorem addTransaction_spec:
  "fst (addTransaction t s) = (tx_from t \<noteq> '''' \<and> tx_to t \<noteq> '''' \<and> amount t > 0 \<and> fee t \<ge> 0)
   \<and> (fst (addTransaction t s) \<longrightarrow>
         pendingTransactions (snd (addTransaction t s)) = pendingTransactions s @ [t]
       \<and> length (pendingTransactions (snd (addTransaction t s))) = length (pendingTransactions s) + 1
       \<and> chain_blocks (snd (addTransaction t s)) = chain_blocks s
       \<and> difficulty (snd (addTransaction t s)) = difficulty s)
   \<and> (\<not> fst (addTransaction t s) \<longrightarrow> snd (addTransaction t s) = s)
   \<and> fst (addTransaction (t\<lparr>signature := sg\<rparr>) s') = fst (addTransaction t s)"
  by (simp add: addTransaction_def isValidTransaction_def)

theorem addTransaction_spec_witness:
  "fst (addTransaction aliceToBob (newBlockchain testPlatform 17))
   \<and> pendingTransactions (snd (addTransaction aliceToBob (newBlockchain testPlatform 17))) = [aliceToBob]
   \<and> \<not> fst (addTransaction fromNobody (newBlockchain testPlatform 17))
   \<and> snd (addTransaction fromNobody (newBlockchain testPlatform 17)) = newBlockchain testPlatform 17"
proof -
  have a: "tx_from aliceToBob \<noteq> '''' \<and> tx_to aliceToBob \<noteq> '''' \<and> amount aliceToBob > 0 \<and> fee aliceToBob \<ge> 0"
    by (simp add: aliceToBob_def)
  have n: "\<not> (tx_from fromNobody \<noteq> '''' \<and> tx_to fromNobody \<noteq> '''' \<and> amount fromNobody > 0 \<and> fee fromNobody \<ge> 0)"
    by (simp add: fromNobody_def)
  have p: "pendingTransactions (newBlockchain testPlatform 17) = []"
    by (simp add: newBlockchain_def)
  from a n p
    addTransaction_spec [of aliceToBob "newBlockchain testPlatform 17" "''x''" "newBlockchain testPlatform 17"]
    addTransaction_spec [of fromNobody "newBlockchain testPlatform 17" "''x''" "newBlockchain testPlatform 17"]
  show ?thesis by simp
qed

text \<open>
  C7. The constructor's chain is the genesis block alone: index 0, previous hash \<open>''0''\<close>, no
  transactions, nonce 0, and a hash that is the content hash of these fields, the digest of
  one string. No nonce is searched for, and the new chain validates whatever that hash is.
\<close>

theorem genesis_spec:
  "chain_blocks (newBlockchain P now) = [createGenesisBlock P now]
   \<and> length (chain_blocks (newBlockchain P now)) = 1
   \<and> pendingTransactions (newBlockchain P now) = []
   \<and> index (createGenesisBlock P now) = 0
   \<and> previousHash (createGenesisBlock P now) = ''0''
   \<and> transactions (createGenesisBlock P now) = []
   \<and> nonce (createGenesisBlock P now) = 0
   \<and> hash (createGenesisBlock P now) = calculateHash P (createGenesisBlock P now)
   \<and> hash (createGenesisBlock P now)
       = sha256_hex P (''0'' @ ''0'' @ decimal now @ json_stringify P [] @ ''0'')
   \<and> validateChain P (newBlockchain P now)"
proof -
  have d: "decimal 0 = ''0''" by (simp add: decimal.simps digitChar_def)
  have c: "chain_blocks (newBlockchain P now) = [createGenesisBlock P now]
      \<and> length (chain_blocks (newBlockchain P now)) = 1
      \<and> pendingTransactions (newBlockchain P now) = []"
    by (simp add: newBlockchain_def)
  have g: "index (createGenesisBlock P now) = 0
      \<and> previousHash (createGenesisBlock P now) = ''0''
      \<and> transactions (createGenesisBlock P now) = []
      \<and> nonce (createGenesisBlock P now) = 0"
    by (simp add: createGenesisBlock_def Let_def)
  have h: "hash (createGenesisBlock P now) = calculateHash P (createGenesisBlock P now)"
    by (simp add: createGenesisBlock_def Let_def calculateHash_def blockString_def)
  have h': "hash (createGenesisBlock P now)
       = sha256_hex P (''0'' @ ''0'' @ decimal now @ json_stringify P [] @ ''0'')"
    using d by (simp add: createGenesisBlock_def Let_def calculateHash_def blockString_def)
  from c g h h' validateChain_newBlockchain [of P now] show ?thesis by blast
qed

text \<open>
  C10. On a chain of one block \<open>validateChain\<close> returns true, whatever the block is: its
  hash, previous hash and nonce are never looked at.
\<close>

theorem validateChain_single_block:
  "length (chain_blocks s) = 1 \<Longrightarrow> validateChain P s"
  by (simp add: validateChain_iff)

theorem validateChain_single_block_witness:
  "length (chain_blocks
      \<lparr>chain_blocks = [\<lparr>index = 5, previousHash = ''nothing'', timestamp = 0, transactions = [aliceToBob],
         nonce = 3, hash = ''tampered''\<rparr>], pendingTransactions = [], difficulty = 4\<rparr>) = 1
   \<and> validateChain testPlatform
      \<lparr>chain_blocks = [\<lparr>index = 5, previousHash = ''nothing'', timestamp = 0, transactions = [aliceToBob],
         nonce = 3, hash = ''tampered''\<rparr>], pendingTransactions = [], difficulty = 4\<rparr>"
  using validateChain_single_block [of
      "\<lparr>chain_blocks = [\<lparr>index = 5, previousHash = ''nothing'', timestamp = 0, transactions = [aliceToBob],
         nonce = 3, hash = ''tampered''\<rparr>], pendingTransactions = [], difficulty = 4\<rparr>" testPlatform]
  by simp



text \<open>
  C4. From a candidate block with nonce 0, if some nonce \<open>n\<close> gives a content hash that meets
  the difficulty target, the proof-of-work search returns: the block it returns has the
  least such nonce \<open>m\<close>, and the hash it returns is the content hash of that block, at least
  \<open>d\<close> characters long with \<open>'0'\<close> in each of the first \<open>d\<close> places. So a block returned by
  \<open>mineBlock\<close> has a hash that meets the target and equals its recomputed content hash.
\<close>

theorem proofOfWork_search:
  "(nonce b = 0 \<and> meetsTarget d (calculateHash P (b\<lparr>nonce := n\<rparr>)) \<longrightarrow>
      (\<exists>m\<le>n. mineBlockWithProofOfWork P d b
                 = Some (calculateHash P (b\<lparr>nonce := m\<rparr>), b\<lparr>nonce := m\<rparr>)
         \<and> d \<le> length (calculateHash P (b\<lparr>nonce := m\<rparr>))
         \<and> (\<forall>i<d. calculateHash P (b\<lparr>nonce := m\<rparr>) ! i = CHR ''0'')
         \<and> (\<forall>k<m. \<not> meetsTarget d (calculateHash P (b\<lparr>nonce := k\<rparr>)))))
   \<and> (mineBlock P now_tx now_blk addr s = Some (Inr (blk, s')) \<longrightarrow>
        hash blk = calculateHash P blk
      \<and> difficulty s \<le> length (hash blk) \<and> (\<forall>i<difficulty s. hash blk ! i = CHR ''0''))"
proof (intro conjI impI)
  assume a: "nonce b = 0 \<and> meetsTarget d (calculateHash P (b\<lparr>nonce := n\<rparr>))"
  then have "meetsTarget d (calculateHash P (b\<lparr>nonce := nonce b + n\<rparr>))" by simp
  from pow_search_least [OF this] a
  obtain m where m: "m \<le> n"
    "mineBlockWithProofOfWork P d b = Some (calculateHash P (b\<lparr>nonce := m\<rparr>), b\<lparr>nonce := m\<rparr>)"
    "meetsTarget d (calculateHash P (b\<lparr>nonce := m\<rparr>))"
    "\<forall>k<m. \<not> meetsTarget d (calculateHash P (b\<lparr>nonce := k\<rparr>))"
    by auto
  from m(3) have "d \<le> length (calculateHash P (b\<lparr>nonce := m\<rparr>))
         \<and> (\<forall>i<d. calculateHash P (b\<lparr>nonce := m\<rparr>) ! i = CHR ''0'')"
    by (simp add: meetsTarget_iff)
  with m show "\<exists>m\<le>n. mineBlockWithProofOfWork P d b
                 = Some (calculateHash P (b\<lparr>nonce := m\<rparr>), b\<lparr>nonce := m\<rparr>)
         \<and> d \<le> length (calculateHash P (b\<lparr>nonce := m\<rparr>))
         \<and> (\<forall>i<d. calculateHash P (b\<lparr>nonce := m\<rparr>) ! i = CHR ''0'')
         \<and> (\<forall>k<m. \<not> meetsTarget d (calculateHash P (b\<lparr>nonce := k\<rparr>)))"
    by blast
next
  assume r: "mineBlock P now_tx now_blk addr s = Some (Inr (blk, s'))"
  from mineBlock_hash(1) [OF r] show "hash blk = calculateHash P blk" .
  from mineBlock_hash(2) [OF r] show "difficulty s \<le> length (hash blk)"
    and "\<forall>i<difficulty s. hash blk ! i = CHR ''0''"
    by (simp_all add: meetsTarget_iff)
qed

theorem proofOfWork_search_witness:
  "nonce testCandidate = 0
   \<and> meetsTarget 4 (calculateHash testPlatform (testCandidate\<lparr>nonce := 2\<rparr>))
   \<and> mineBlockWithProofOfWork testPlatform 4 testCandidate
       = Some (''0000beef'', testCandidate\<lparr>nonce := 2\<rparr>)
   \<and> (\<exists>blk s'. mineBlock testPlatform 20 21 ''miner1'' testLedger = Some (Inr (blk, s'))
         \<and> hash blk = ''0000beef'' \<and> calculateHash testPlatform blk = ''0000beef'')"
proof -
  note pw = proofOfWork_search [of testCandidate 4 testPlatform 2 20 21 "''miner1''" testLedger]
  from pw testCandidate_nonce testCandidate_2
  obtain m where m: "m \<le> 2"
    "mineBlockWithProofOfWork testPlatform 4 testCandidate
       = Some (calculateHash testPlatform (testCandidate\<lparr>nonce := m\<rparr>), testCandidate\<lparr>nonce := m\<rparr>)"
    "4 \<le> length (calculateHash testPlatform (testCandidate\<lparr>nonce := m\<rparr>))"
    "\<forall>i<4. calculateHash testPlatform (testCandidate\<lparr>nonce := m\<rparr>) ! i = CHR ''0''"
    by blast
  from m(3,4) have mm: "meetsTarget 4 (calculateHash testPlatform (testCandidate\<lparr>nonce := m\<rparr>))"
    by (simp add: meetsTarget_iff)
  have "m \<noteq> 0" using mm testCandidate_0 by (intro notI) simp
  moreover have "m \<noteq> 1" using mm testCandidate_1 by (intro notI) simp
  ultimately have m2: "m = 2" using m(1) by simp
  have h2: "calculateHash testPlatform (testCandidate\<lparr>nonce := 2\<rparr>) = ''0000beef''"
    by (simp add: test_defs)
  from m(2) have s: "mineBlockWithProofOfWork testPlatform 4 testCandidate
       = Some (''0000beef'', testCandidate\<lparr>nonce := 2\<rparr>)"
    unfolding m2 h2 .
  have ne: "chain_blocks testLedger \<noteq> []" by (simp add: testLedger_chain)
  have "mineBlockWithProofOfWork testPlatform (difficulty testLedger)
           (candidateBlock 20 21 ''miner1'' testLedger (last (chain_blocks testLedger)))
        = Some (''0000beef'', testCandidate\<lparr>nonce := 2\<rparr>)"
    using s by (simp add: testLedger_difficulty testLedger_last testCandidate_def)
  from mineBlock_unfold [OF ne this]
  obtain blk s' where r: "mineBlock testPlatform 20 21 ''miner1'' testLedger = Some (Inr (blk, s'))"
    and blk: "blk = testCandidate\<lparr>nonce := 2, hash := ''0000beef''\<rparr>" by simp
  from blk have "hash blk = ''0000beef''" by simp
  moreover from pw [of blk s'] r have "hash blk = calculateHash testPlatform blk" by blast
  ultimately show ?thesis using r s testCandidate_nonce testCandidate_2 by auto
qed

text \<open>
  C1. A call of \<open>mineBlock\<close> that returns gives a block whose transactions are the pending
  transactions, in their order, followed by one reward transaction from \<open>''system''\<close> to the
  miner with fee 0; the block's index is the former chain length, its previous hash is the
  hash of the former last block, the block is appended to the chain, which grows by one, and
  the pending pool is empty afterwards. On a ledger with a non-empty chain the call returns
  whenever some nonce of the candidate block meets the difficulty target.
\<close>

theorem mineBlock_spec:
  "(mineBlock P now_tx now_blk addr s = Some (Inr (b, s')) \<longrightarrow>
      (\<exists>reward. transactions b = pendingTransactions s @ [reward]
          \<and> tx_from reward = ''system'' \<and> tx_to reward = addr \<and> fee reward = 0 \<and> amount reward = 50)
      \<and> index b = length (chain_blocks s)
      \<and> chain_blocks s \<noteq> [] \<and> previousHash b = hash (last (chain_blocks s))
      \<and> chain_blocks s' = chain_blocks s @ [b]
      \<and> length (chain_blocks s') = length (chain_blocks s) + 1
      \<and> pendingTransactions s' = []
      \<and> difficulty s' = difficulty s)
   \<and> (chain_blocks s \<noteq> []
        \<and> meetsTarget (difficulty s) (calculateHash P
             ((candidateBlock now_tx now_blk addr s (last (chain_blocks s)))\<lparr>nonce := n\<rparr>))
      \<longrightarrow> (\<exists>b s'. mineBlock P now_tx now_blk addr s = Some (Inr (b, s'))))"
proof (intro conjI impI)
  assume r: "mineBlock P now_tx now_blk addr s = Some (Inr (b, s'))"
  from mineBlock_block [OF r] obtain k where
    b: "b = (candidateBlock now_tx now_blk addr s (last (chain_blocks s)))
                  \<lparr>nonce := k, hash := calculateHash P
                      ((candidateBlock now_tx now_blk addr s (last (chain_blocks s)))\<lparr>nonce := k\<rparr>)\<rparr>"
    by blast
  from mineBlock_InrD [OF r] have ne: "chain_blocks s \<noteq> []"
    and s': "s' = s\<lparr>chain_blocks := chain_blocks s @ [b], pendingTransactions := []\<rparr>"
    by blast+
  from b have "transactions b = pendingTransactions s @ [rewardTransaction now_tx addr]"
    by (simp add: candidateBlock_def)
  then show "\<exists>reward. transactions b = pendingTransactions s @ [reward]
          \<and> tx_from reward = ''system'' \<and> tx_to reward = addr \<and> fee reward = 0 \<and> amount reward = 50"
    by (intro exI [of _ "rewardTransaction now_tx addr"]) (simp add: rewardTransaction_def)
  from b show "index b = length (chain_blocks s)" by (simp add: candidateBlock_def)
  from ne show "chain_blocks s \<noteq> []" .
  from b show "previousHash b = hash (last (chain_blocks s))" by (simp add: candidateBlock_def)
  from s' show "chain_blocks s' = chain_blocks s @ [b]" by simp
  from s' show "length (chain_blocks s') = length (chain_blocks s) + 1" by simp
  from s' show "pendingTransactions s' = []" by simp
  from s' show "difficulty s' = difficulty s" by simp
next
  assume "chain_blocks s \<noteq> []
        \<and> meetsTarget (difficulty s) (calculateHash P
             ((candidateBlock now_tx now_blk addr s (last (chain_blocks s)))\<lparr>nonce := n\<rparr>))"
  then show "\<exists>b s'. mineBlock P now_tx now_blk addr s = Some (Inr (b, s'))"
    by (blast intro: mineBlock_returns)
qed

theorem mineBlock_spec_witness:
  "chain_blocks testLedger \<noteq> []
   \<and> meetsTarget (difficulty testLedger) (calculateHash testPlatform
        ((candidateBlock 20 21 ''miner1'' testLedger (last (chain_blocks testLedger)))\<lparr>nonce := 2\<rparr>))
   \<and> (\<exists>b s'. mineBlock testPlatform 20 21 ''miner1'' testLedger = Some (Inr (b, s'))
        \<and> transactions b = [aliceToBob, rewardTransaction 20 ''miner1'']
        \<and> index b = 1
        \<and> previousHash b = hash (createGenesisBlock testPlatform 17)
        \<and> chain_blocks s' = [createGenesisBlock testPlatform 17, b]
        \<and> pendingTransactions s' = [])"
proof -
  note mb = mineBlock_spec [of testPlatform 20 21 "''miner1''" testLedger _ _ 2]
  have ne: "chain_blocks testLedger \<noteq> []" by (simp add: testLedger_chain)
  have mt: "meetsTarget (difficulty testLedger) (calculateHash testPlatform
        ((candidateBlock 20 21 ''miner1'' testLedger (last (chain_blocks testLedger)))\<lparr>nonce := 2\<rparr>))"
    using testCandidate_2 by (simp add: testLedger_difficulty testLedger_last testCandidate_def)
  from mb ne mt obtain b s' where
    r: "mineBlock testPlatform 20 21 ''miner1'' testLedger = Some (Inr (b, s'))" by blast
  from mb [of b s'] r obtain reward where p:
    "transactions b = pendingTransactions testLedger @ [reward]"
    "tx_from reward = ''system''" "tx_to reward = ''miner1''" "fee reward = 0"
    "index b = length (chain_blocks testLedger)"
    "previousHash b = hash (last (chain_blocks testLedger))"
    "chain_blocks s' = chain_blocks testLedger @ [b]"
    "pendingTransactions s' = []"
    by blast
  from mineBlock_block [OF r] have "last (transactions b) = rewardTransaction 20 ''miner1''"
    by (auto simp: candidateBlock_def)
  with p(1) have "reward = rewardTransaction 20 ''miner1''" by simp
  with p r ne mt show ?thesis
    by (auto simp: testLedger_chain testLedger_pending)
qed





subsection \<open>The validation of a mined ledger\<close>

lemma testCandidate_search:
  "mineBlockWithProofOfWork testPlatform 4 testCandidate
     = Some (''0000beef'', testCandidate\<lparr>nonce := 2\<rparr>)"
proof -
  have "\<not> meetsTarget 4 (calculateHash testPlatform (testCandidate\<lparr>nonce := nonce testCandidate + i\<rparr>))"
    if "i < 2" for i
  proof -
    from that consider "i = 0" | "i = 1" by linarith
    then show ?thesis
      using testCandidate_0 testCandidate_1 by cases (simp_all add: testCandidate_nonce)
  qed
  then have "\<forall>i<2. \<not> meetsTarget 4
      (calculateHash testPlatform (testCandidate\<lparr>nonce := nonce testCandidate + i\<rparr>))"
    by blast
  moreover have "meetsTarget 4
      (calculateHash testPlatform (testCandidate\<lparr>nonce := nonce testCandidate + 2\<rparr>))"
    using testCandidate_2 by (simp only: testCandidate_nonce add_0)
  ultimately have "mineBlockWithProofOfWork testPlatform 4 testCandidate
     = Some (calculateHash testPlatform (testCandidate\<lparr>nonce := nonce testCandidate + 2\<rparr>),
             testCandidate\<lparr>nonce := nonce testCandidate + 2\<rparr>)"
    by (intro pow_search_from)
  moreover have "calculateHash testPlatform (testCandidate\<lparr>nonce := 2\<rparr>) = ''0000beef''"
    by (simp add: test_defs)
  ultimately show ?thesis by (simp only: testCandidate_nonce add_0)
qed

lemma testLedger_mineBlock:
  "mineBlock testPlatform 20 21 ''miner1'' testLedger = Some (Inr (testBlock, testLedgerMined))"
proof -
  have ne: "chain_blocks testLedger \<noteq> []" by (simp add: testLedger_chain)
  have "mineBlockWithProofOfWork testPlatform (difficulty testLedger)
           (candidateBlock 20 21 ''miner1'' testLedger (last (chain_blocks testLedger)))
        = Some (''0000beef'', testCandidate\<lparr>nonce := 2\<rparr>)"
    using testCandidate_search
    by (simp add: testLedger_difficulty testLedger_last testCandidate_def)
  from mineBlock_unfold [OF ne this] show ?thesis
    by (simp add: testBlock_def testLedgerMined_def)
qed








section \<open>The claims about the node and the miner\<close>




lemma miningLoopHead_stopped:
  "\<not> isMining (miner w) \<Longrightarrow> miningLoopHead P now_tx now_blk w = Some (LoopExited, w)"
  by (simp add: miningLoopHead_def)

lemma miningLoopHead_idle:
  "isMining (miner w) \<Longrightarrow> pendingTransactions (ledger w) = [] \<Longrightarrow>
     miningLoopHead P now_tx now_blk w = Some (AwaitSleep 5000, w)"
  by (simp add: miningLoopHead_def)

lemma miningLoopHead_mines:
  assumes "isMining (miner w)" "pendingTransactions (ledger w) \<noteq> []"
    and "mineBlock P now_tx now_blk (minerAddress (miner w)) (ledger w) = Some (Inr (b, s'))"
  shows "miningLoopHead P now_tx now_blk w =
     Some (AwaitBroadcast b,
       w\<lparr>ledger := s',
         console := console w @
           [MiningBlockWith (length (pendingTransactions (ledger w))),
            BlockMined (hash b) (nonce b), BlockMinedSuccessfully (index b),
            MinerBalance (getBalance s' (minerAddress (miner w)))]\<rparr>)"
  using assms by (simp add: miningLoopHead_def writeLog_def Let_def)

lemma miningLoopHead_running:
  assumes "isMining (miner w)" "miningLoopHead P now_tx now_blk w = Some (l, w')"
  shows "isMining (miner w') \<and> l \<noteq> LoopExited"
  using assms
  by (auto simp: miningLoopHead_def writeLog_def Let_def
      split: if_splits option.splits sum.splits prod.splits)

lemma miningLoopStep_stopped:
  assumes "\<not> isMining (miner w)"
  shows "\<exists>l' w'. miningLoopStep P now_tx now_blk l w = Some (l', w')
           \<and> ledger w' = ledger w \<and> \<not> isMining (miner w')"
  using assms
  by (cases l) (simp_all add: miningLoopHead_stopped broadcastBlock_def writeLog_def)

lemma miningLoopRun_stopped:
  assumes "\<not> isMining (miner w)"
  shows "\<exists>l' w'. miningLoopRun P clock l w = Some (l', w')
           \<and> ledger w' = ledger w \<and> \<not> isMining (miner w')"
  using assms
proof (induction clock arbitrary: l w)
  case Nil
  then show ?case by simp
next
  case (Cons c clock)
  obtain now_tx now_blk where c: "c = (now_tx, now_blk)" by (cases c)
  from miningLoopStep_stopped [OF Cons.prems, of P now_tx now_blk l]
  obtain l1 w1 where s: "miningLoopStep P now_tx now_blk l w = Some (l1, w1)"
    "ledger w1 = ledger w" "\<not> isMining (miner w1)"
    by blast
  from Cons.IH [OF s(3), of l1] obtain l' w' where
    "miningLoopRun P clock l1 w1 = Some (l', w')" "ledger w' = ledger w1" "\<not> isMining (miner w')"
    by blast
  with s c show ?case by simp
qed




text \<open>
  C8. \<open>start\<close> leaves the miner running and \<open>stop\<close> leaves it stopped, as \<open>isMiningActive\<close>
  reports. The loop reads the flag at the loop test: when the miner is stopped the loop is
  left and nothing is changed, so \<open>mineBlock\<close> is not called. When the miner is running and
  the pending pool is empty, the loop only sleeps and comes back to the loop test. When the
  miner is running and the pool is not empty, \<open>mineBlock\<close> is called, and when it returns the
  produced block is broadcast before the loop sleeps. A step of the loop that changes the
  ledger is such a call of \<open>mineBlock\<close>, made at the loop test by a running miner with a
  non-empty pool; a stopped miner's loop, however many steps it takes, leaves the ledger as
  it is.
\<close>

theorem miner_state_machine:
  "(start P now_tx now_blk w = Some (l, w') \<longrightarrow> isMiningActive w' \<and> l \<noteq> LoopExited)
   \<and> (pendingTransactions (ledger w) = [] \<longrightarrow>
        start P now_tx now_blk w
          = Some (AwaitSleep 5000,
                  w\<lparr>miner := (miner w)\<lparr>isMining := True\<rparr>, console := console w @ [MinerStarted]\<rparr>))
   \<and> \<not> isMiningActive (stop w) \<and> ledger (stop w) = ledger w
   \<and> (\<not> isMiningActive w \<longrightarrow> miningLoopStep P now_tx now_blk LoopHead w = Some (LoopExited, w))
   \<and> (isMiningActive w \<and> pendingTransactions (ledger w) = [] \<longrightarrow>
        miningLoopStep P now_tx now_blk LoopHead w = Some (AwaitSleep 5000, w))
   \<and> miningLoopStep P now_tx now_blk (AwaitSleep ms) w = Some (LoopHead, w)
   \<and> (isMiningActive w \<and> pendingTransactions (ledger w) \<noteq> []
        \<and> mineBlock P now_tx now_blk (getMinerAddress w) (ledger w) = Some (Inr (b, s'))
      \<longrightarrow> (\<exists>w1. miningLoopStep P now_tx now_blk LoopHead w = Some (AwaitBroadcast b, w1)
              \<and> ledger w1 = s' \<and> isMiningActive w1
              \<and> miningLoopStep P now_tx now_blk (AwaitBroadcast b) w1
                  = Some (AwaitSleep 5000, broadcastBlock b w1)))
   \<and> (miningLoopStep P now_tx now_blk l w = Some (l', w') \<and> ledger w' \<noteq> ledger w
      \<longrightarrow> l = LoopHead \<and> isMiningActive w \<and> pendingTransactions (ledger w) \<noteq> []
          \<and> (\<exists>b. l' = AwaitBroadcast b
                \<and> mineBlock P now_tx now_blk (getMinerAddress w) (ledger w)
                    = Some (Inr (b, ledger w'))))
   \<and> (\<not> isMiningActive w
      \<longrightarrow> (\<exists>l2 w2. miningLoopRun P clock l w = Some (l2, w2)
              \<and> ledger w2 = ledger w \<and> \<not> isMiningActive w2))"
proof (intro conjI impI)
  assume "\<not> isMiningActive w"
  then show "\<exists>l2 w2. miningLoopRun P clock l w = Some (l2, w2)
              \<and> ledger w2 = ledger w \<and> \<not> isMiningActive w2"
    unfolding isMiningActive_def by (rule miningLoopRun_stopped)
next
  assume "start P now_tx now_blk w = Some (l, w')"
  then have "miningLoopHead P now_tx now_blk
       (writeLog MinerStarted (w\<lparr>miner := (miner w)\<lparr>isMining := True\<rparr>\<rparr>)) = Some (l, w')"
    by (simp add: start_def)
  moreover have "isMining (miner (writeLog MinerStarted (w\<lparr>miner := (miner w)\<lparr>isMining := True\<rparr>\<rparr>)))"
    by (simp add: writeLog_def)
  ultimately have r: "isMining (miner w') \<and> l \<noteq> LoopExited"
    by (intro miningLoopHead_running) 
  from r show "isMiningActive w'" by (simp add: isMiningActive_def)
  from r show "l \<noteq> LoopExited" by blast
next
  assume "pendingTransactions (ledger w) = []"
  then show "start P now_tx now_blk w
          = Some (AwaitSleep 5000,
                  w\<lparr>miner := (miner w)\<lparr>isMining := True\<rparr>, console := console w @ [MinerStarted]\<rparr>)"
    by (simp add: start_def miningLoopHead_def writeLog_def)
next
  show "\<not> isMiningActive (stop w)" by (simp add: isMiningActive_def stop_def writeLog_def)
  show "ledger (stop w) = ledger w" by (simp add: stop_def writeLog_def)
  show "miningLoopStep P now_tx now_blk (AwaitSleep ms) w = Some (LoopHead, w)" by simp
next
  assume "\<not> isMiningActive w"
  then show "miningLoopStep P now_tx now_blk LoopHead w = Some (LoopExited, w)"
    by (simp add: isMiningActive_def miningLoopHead_stopped)
next
  assume "isMiningActive w \<and> pendingTransactions (ledger w) = []"
  then show "miningLoopStep P now_tx now_blk LoopHead w = Some (AwaitSleep 5000, w)"
    by (simp add: isMiningActive_def miningLoopHead_idle)
next
  assume a: "isMiningActive w \<and> pendingTransactions (ledger w) \<noteq> []
        \<and> mineBlock P now_tx now_blk (getMinerAddress w) (ledger w) = Some (Inr (b, s'))"
  let ?w1 = "w\<lparr>ledger := s',
         console := console w @
           [MiningBlockWith (length (pendingTransactions (ledger w))),
            BlockMined (hash b) (nonce b), BlockMinedSuccessfully (index b),
            MinerBalance (getBalance s' (minerAddress (miner w)))]\<rparr>"
  from a have "miningLoopHead P now_tx now_blk w = Some (AwaitBroadcast b, ?w1)"
    by (intro miningLoopHead_mines) (simp_all add: isMiningActive_def getMinerAddress_def)
  moreover from a have "isMiningActive ?w1" by (simp add: isMiningActive_def)
  ultimately show "\<exists>w1. miningLoopStep P now_tx now_blk LoopHead w = Some (AwaitBroadcast b, w1)
              \<and> ledger w1 = s' \<and> isMiningActive w1
              \<and> miningLoopStep P now_tx now_blk (AwaitBroadcast b) w1
                  = Some (AwaitSleep 5000, broadcastBlock b w1)"
    by (intro exI [of _ ?w1]) simp
next
  assume a: "miningLoopStep P now_tx now_blk l w = Some (l', w') \<and> ledger w' \<noteq> ledger w"
  then have l: "l = LoopHead"
    by (cases l) (auto simp: broadcastBlock_def writeLog_def)
  with a have h: "miningLoopHead P now_tx now_blk w = Some (l', w')" and n: "ledger w' \<noteq> ledger w"
    by simp_all
  from h n have r: "isMining (miner w) \<and> pendingTransactions (ledger w) \<noteq> []
      \<and> (\<exists>b. l' = AwaitBroadcast b
            \<and> mineBlock P now_tx now_blk (minerAddress (miner w)) (ledger w) = Some (Inr (b, ledger w')))"
    by (auto simp: miningLoopHead_def writeLog_def Let_def
        split: if_splits option.splits sum.splits prod.splits)
  from l show "l = LoopHead" .
  from r show "isMiningActive w" by (simp add: isMiningActive_def)
  from r show "pendingTransactions (ledger w) \<noteq> []" by blast
  from r show "\<exists>b. l' = AwaitBroadcast b
                \<and> mineBlock P now_tx now_blk (getMinerAddress w) (ledger w)
                    = Some (Inr (b, ledger w'))"
    by (simp add: getMinerAddress_def)
qed

theorem miner_state_machine_witness:
  "\<exists>w1. start testPlatform 20 21 testWorld = Some (AwaitBroadcast testBlock, w1)
      \<and> isMiningActive w1 \<and> ledger w1 = testLedgerMined
      \<and> miningLoopStep testPlatform 22 23 (AwaitBroadcast testBlock) w1
          = Some (AwaitSleep 5000, broadcastBlock testBlock w1)
      \<and> miningLoopStep testPlatform 22 23 LoopHead (broadcastBlock testBlock w1)
          = Some (AwaitSleep 5000, broadcastBlock testBlock w1)
      \<and> \<not> isMiningActive (stop (broadcastBlock testBlock w1))
      \<and> miningLoopStep testPlatform 22 23 LoopHead (stop (broadcastBlock testBlock w1))
          = Some (LoopExited, stop (broadcastBlock testBlock w1))
      \<and> (\<exists>l2 w2. miningLoopRun testPlatform [(24, 25), (26, 27)] (AwaitSleep 5000)
                    (stop (broadcastBlock testBlock w1)) = Some (l2, w2)
              \<and> ledger w2 = testLedgerMined \<and> \<not> isMiningActive w2)"
proof -
  let ?r = "writeLog MinerStarted (testWorld\<lparr>miner := (miner testWorld)\<lparr>isMining := True\<rparr>\<rparr>)"
  have run: "isMiningActive ?r" by (simp add: isMiningActive_def writeLog_def)
  have pool: "pendingTransactions (ledger ?r) \<noteq> []"
    by (simp add: writeLog_def testWorld_def testLedger_pending)
  have mb: "mineBlock testPlatform 20 21 (getMinerAddress ?r) (ledger ?r)
      = Some (Inr (testBlock, testLedgerMined))"
    by (simp add: getMinerAddress_def writeLog_def testWorld_def testLedger_mineBlock)
  from miner_state_machine [where P = testPlatform and now_tx = 20 and now_blk = 21 and w = ?r
      and b = testBlock and s' = testLedgerMined,
      THEN conjunct2, THEN conjunct2, THEN conjunct2, THEN conjunct2, THEN conjunct2,
      THEN conjunct2, THEN conjunct2, THEN conjunct1] run pool mb
  obtain w1 where w1:
    "miningLoopStep testPlatform 20 21 LoopHead ?r = Some (AwaitBroadcast testBlock, w1)"
    "ledger w1 = testLedgerMined" "isMiningActive w1"
    by blast
  from w1(1) have st: "start testPlatform 20 21 testWorld = Some (AwaitBroadcast testBlock, w1)"
    by (simp add: start_def)
  note at_w1 = miner_state_machine [where P = testPlatform and now_tx = 20 and now_blk = 21
      and w = testWorld and l = "AwaitBroadcast testBlock" and w' = w1]
  from at_w1 [THEN conjunct1] st have a: "isMiningActive w1" by blast
  have b: "miningLoopStep testPlatform 22 23 (AwaitBroadcast testBlock) w1
          = Some (AwaitSleep 5000, broadcastBlock testBlock w1)"
    by simp
  let ?w2 = "broadcastBlock testBlock w1"
  have run2: "isMiningActive ?w2" using a by (simp add: isMiningActive_def broadcastBlock_def writeLog_def)
  have pool2: "pendingTransactions (ledger ?w2) = []"
    using w1(2) by (simp add: broadcastBlock_def writeLog_def testLedgerMined_def)
  from miner_state_machine [where P = testPlatform and now_tx = 22 and now_blk = 23 and w = ?w2,
      THEN conjunct2, THEN conjunct2, THEN conjunct2, THEN conjunct2, THEN conjunct2,
      THEN conjunct1] run2 pool2
  have c: "miningLoopStep testPlatform 22 23 LoopHead ?w2 = Some (AwaitSleep 5000, ?w2)"
    by blast
  from miner_state_machine [where w = ?w2, THEN conjunct2, THEN conjunct2, THEN conjunct1]
  have d: "\<not> isMiningActive (stop ?w2)" .
  with miner_state_machine [where P = testPlatform and now_tx = 22 and now_blk = 23
      and w = "stop ?w2",
      THEN conjunct2, THEN conjunct2, THEN conjunct2, THEN conjunct2, THEN conjunct1]
  have e: "miningLoopStep testPlatform 22 23 LoopHead (stop ?w2) = Some (LoopExited, stop ?w2)"
    by (rule mp)
  have "ledger (stop ?w2) = testLedgerMined"
    using w1(2) by (simp add: stop_def broadcastBlock_def writeLog_def)
  with d miner_state_machine [where P = testPlatform and w = "stop ?w2" and l = "AwaitSleep 5000"
      and clock = "[(24, 25), (26, 27)]",
      THEN conjunct2, THEN conjunct2, THEN conjunct2, THEN conjunct2, THEN conjunct2,
      THEN conjunct2, THEN conjunct2, THEN conjunct2, THEN conjunct2]
  have f: "\<exists>l2 w2. miningLoopRun testPlatform [(24, 25), (26, 27)] (AwaitSleep 5000) (stop ?w2)
                = Some (l2, w2)
              \<and> ledger w2 = testLedgerMined \<and> \<not> isMiningActive w2"
    by simp
  from st a w1(2) b c d e f show ?thesis by blast
qed

end
